theory Spec2Isabelle
  imports Complex_Main
begin

section \<open>Python strings\<close>

text \<open>
  A Python \<open>str\<close> is modelled as a \<open>string\<close>; a \<open>char\<close> stands for the code point of
  the same number, so the model covers the code points below 256. The lines of the reader
  process are ASCII.
\<close>

definition py_isspace :: "char \<Rightarrow> bool" where
  \<comment> \<open>\<open>str.isspace\<close> on one character: TAB, LF, VT, FF, CR, FS, GS, RS, US, SPACE, NEL, NBSP.\<close>
  "py_isspace c =
     (let n = (of_char c :: nat)
      in (9 \<le> n \<and> n \<le> 13) \<or> (28 \<le> n \<and> n \<le> 32) \<or> n = 133 \<or> n = 160)"

definition py_strip :: "string \<Rightarrow> string" where
  \<comment> \<open>\<open>s.strip()\<close>: leading and trailing whitespace removed.\<close>
  "py_strip s = rev (dropWhile py_isspace (rev (dropWhile py_isspace s)))"

fun py_split :: "char \<Rightarrow> string \<Rightarrow> string list" where
  \<comment> \<open>\<open>s.split(sep)\<close> for a separator of one character; \<open>''.split(sep)\<close> is \<open>['']\<close>.\<close>
  "py_split sep [] = [[]]"
| "py_split sep (c # cs) =
     (if c = sep then [] # py_split sep cs
      else (case py_split sep cs of
              [] \<Rightarrow> [[c]]
            | g # gs \<Rightarrow> (c # g) # gs))"

definition py_lower_char :: "char \<Rightarrow> char" where
  \<comment> \<open>\<open>str.lower\<close> on one character: A-Z, and the capital letters of Latin-1.\<close>
  "py_lower_char c =
     (let n = (of_char c :: nat)
      in if (65 \<le> n \<and> n \<le> 90) \<or> (192 \<le> n \<and> n \<le> 214) \<or> (216 \<le> n \<and> n \<le> 222)
         then char_of (n + 32) else c)"

definition py_lower :: "string \<Rightarrow> string" where
  "py_lower s = map py_lower_char s"

definition py_join :: "string list \<Rightarrow> string" where
  \<comment> \<open>\<open>''.join(xs)\<close>\<close>
  "py_join xs = concat xs"

section \<open>IdentifierNormalizer\<close>

definition TapManager_byte_string_to_lens_id :: "string \<Rightarrow> string" where
  \<comment> \<open>\<open>TapManager._byte_string_to_lens_id\<close>:
      \<open>"".join(byte_string.strip().split(":")[1:]).lower()\<close>\<close>
  "TapManager_byte_string_to_lens_id byte_string =
     py_lower (py_join (drop 1 (py_split CHR '':'' (py_strip byte_string))))"

definition byte_string_to_lens_id :: "string \<Rightarrow> string" where
  \<comment> \<open>the module-level function of the same body\<close>
  "byte_string_to_lens_id byte_string =
     py_lower (py_join (drop 1 (py_split CHR '':'' (py_strip byte_string))))"

section \<open>The pattern of the main loop\<close>

text \<open>
  \<open>re.match(pattern, line)\<close> succeeds when some prefix of \<open>line\<close> is a word of the pattern.
  Patterns are regular expressions over character classes; the matcher below follows one
  character at a time the expressions that remain to be matched.
\<close>

datatype regex =
    Never
  | Empty
  | Lit char
  | Class "(char \<times> char) list"
  | Alt regex regex
  | Seq regex regex
  | Star regex

definition Opt :: "regex \<Rightarrow> regex" where
  \<comment> \<open>\<open>r?\<close>\<close>
  "Opt r = Alt r Empty"

definition Twice :: "regex \<Rightarrow> regex" where
  \<comment> \<open>\<open>r{2}\<close>\<close>
  "Twice r = Seq r r"

definition Plus :: "regex \<Rightarrow> regex" where
  \<comment> \<open>\<open>r+\<close>\<close>
  "Plus r = Seq r (Star r)"

definition in_range :: "char \<Rightarrow> char \<times> char \<Rightarrow> bool" where
  "in_range c rg = ((of_char (fst rg) :: nat) \<le> of_char c \<and> (of_char c :: nat) \<le> of_char (snd rg))"

fun nullable :: "regex \<Rightarrow> bool" where
  "nullable Never = False"
| "nullable Empty = True"
| "nullable (Lit c) = False"
| "nullable (Class rs) = False"
| "nullable (Alt r s) = (nullable r \<or> nullable s)"
| "nullable (Seq r s) = (nullable r \<and> nullable s)"
| "nullable (Star r) = True"

fun after :: "char \<Rightarrow> regex \<Rightarrow> regex" where
  \<comment> \<open>what remains to be matched once the character \<open>c\<close> has been read\<close>
  "after c Never = Never"
| "after c Empty = Never"
| "after c (Lit d) = (if c = d then Empty else Never)"
| "after c (Class rs) = (if list_ex (in_range c) rs then Empty else Never)"
| "after c (Alt r s) = Alt (after c r) (after c s)"
| "after c (Seq r s) =
     (if nullable r then Alt (Seq (after c r) s) (after c s) else Seq (after c r) s)"
| "after c (Star r) = Seq (after c r) (Star r)"

fun re_match :: "regex \<Rightarrow> string \<Rightarrow> bool" where
  \<comment> \<open>\<open>re.match(r, s)\<close> is not \<open>None\<close>\<close>
  "re_match r [] = nullable r"
| "re_match r (c # cs) = (nullable r \<or> re_match (after c r) cs)"

definition hex_digit_class :: regex where
  \<comment> \<open>\<open>[0-9a-fA-F]\<close>\<close>
  "hex_digit_class = Class [(CHR ''0'', CHR ''9''), (CHR ''a'', CHR ''f''), (CHR ''A'', CHR ''F'')]"

definition BYTE_STRING_RE :: regex where
  \<comment> \<open>\<open>([0-9a-fA-F]{2}:?)+\<close>\<close>
  "BYTE_STRING_RE = Plus (Seq (Twice hex_digit_class) (Opt (Lit CHR '':'')))"

section \<open>RampThread and LedsManager\<close>

text \<open>
  A colour is the triple of its red, green and blue channels. Times and durations are
  Python floats. A float is modelled as the rational number it stands for, and an operation
  on floats gives the rounding \<open>rnd\<close> of its exact result; \<open>rnd\<close>, the rounding of the
  machine's arithmetic, is a parameter of the model, so what is proved holds for every
  rounding (infinities and NaN are outside the model). What \<open>time() - t0\<close> and
  \<open>stopped()\<close> return in an iteration of the loop comes from outside the thread: each
  iteration reads one tick, the elapsed time and the state of the stop event. \<open>time()\<close> is
  the wall clock, so an elapsed time can be negative. When the ticks run out the thread is
  still in its loop.
\<close>

type_synonym colour = "int \<times> int \<times> int"

datatype error = ZeroDivisionError

fun chan :: "nat \<Rightarrow> colour \<Rightarrow> int" where
  "chan i (r, g, b) = (if i = 0 then r else if i = 1 then g else b)"

fun set_chan :: "nat \<Rightarrow> int \<Rightarrow> colour \<Rightarrow> colour" where
  "set_chan i v (r, g, b) = (if i = 0 then (v, g, b) else if i = 1 then (r, v, b) else (r, g, v))"

definition py_int :: "rat \<Rightarrow> int" where
  \<comment> \<open>\<open>int(x)\<close> truncates towards zero\<close>
  "py_int x = (if 0 \<le> x then \<lfloor>x\<rfloor> else \<lceil>x\<rceil>)"

definition exact :: "rat \<Rightarrow> rat" where
  \<comment> \<open>the arithmetic that does not round\<close>
  "exact x = x"

definition ease :: "(rat \<Rightarrow> rat) \<Rightarrow> rat \<Rightarrow> int \<Rightarrow> int \<Rightarrow> rat \<Rightarrow> error + rat" where
  \<comment> \<open>Penner's easeInCubic: \<open>t = t / d\<close>, which raises when \<open>d\<close> is zero, then
      \<open>c * t * t * t + b\<close>, with the integers \<open>b\<close> and \<open>c\<close> converted to floats\<close>
  "ease rnd t b c d =
     (if d = 0 then Inl ZeroDivisionError
      else (let t' = rnd (t / d)
            in Inr (rnd (rnd (rnd (rnd (rnd (of_int c) * t') * t') * t') + rnd (of_int b)))))"

record RampThread =
  current_color :: colour
  target_color :: colour
  duration_s :: rat

type_synonym tick = "rat \<times> bool"

datatype run_end = Cancelled | Completed | Raised error | Still_running

fun ramp_channels ::
  "(rat \<Rightarrow> rat) \<Rightarrow> nat list \<Rightarrow> RampThread \<Rightarrow> colour \<Rightarrow> colour \<Rightarrow> rat \<Rightarrow>
     RampThread \<times> error option" where
  \<comment> \<open>\<open>for i in range(3): self.current_color[i] = int(RampThread.ease(...))\<close>\<close>
  "ramp_channels rnd [] th start_color diff t = (th, None)"
| "ramp_channels rnd (i # is) th start_color diff t =
     (case ease rnd t (chan i start_color) (chan i diff) (duration_s th) of
        Inl e \<Rightarrow> (th, Some e)
      | Inr v \<Rightarrow>
          ramp_channels rnd is (th\<lparr>current_color := set_chan i (py_int v) (current_color th)\<rparr>)
            start_color diff t)"

fun run_loop ::
  "(rat \<Rightarrow> rat) \<Rightarrow> RampThread \<Rightarrow> colour \<Rightarrow> colour \<Rightarrow> tick list \<Rightarrow>
     RampThread \<times> colour list \<times> run_end" where
  \<comment> \<open>the \<open>while True\<close> of \<open>run\<close>; the second component lists the calls of \<open>set_leds\<close>\<close>
  "run_loop rnd th start_color diff [] = (th, [], Still_running)"
| "run_loop rnd th start_color diff ((t, stopped) # ticks) =
     (if stopped then (th, [], Cancelled)
      else if t \<ge> duration_s th then (th, [target_color th], Completed)
      else (case ramp_channels rnd [0, 1, 2] th start_color diff t of
              (th', Some e) \<Rightarrow> (th', [], Raised e)
            | (th', None) \<Rightarrow>
                (case run_loop rnd th' start_color diff ticks of
                   (th'', ws, r) \<Rightarrow> (th'', current_color th' # ws, r))))"

definition RampThread_run ::
  "(rat \<Rightarrow> rat) \<Rightarrow> RampThread \<Rightarrow> tick list \<Rightarrow> RampThread \<times> colour list \<times> run_end" where
  "RampThread_run rnd th ticks =
     (let start_color = current_color th;
          diff = (chan 0 (target_color th) - chan 0 start_color,
                  chan 1 (target_color th) - chan 1 start_color,
                  chan 2 (target_color th) - chan 2 start_color)
      in run_loop rnd th start_color diff ticks)"

record config =
  LEDS_COLOUR_DEFAULT :: colour
  LEDS_COLOUR_SUCCESS :: colour
  LEDS_COLOUR_FAILED :: colour

definition default_config :: config where
  \<comment> \<open>the values used when the environment sets none\<close>
  "default_config =
     \<lparr>LEDS_COLOUR_DEFAULT = (130, 127, 127),
      LEDS_COLOUR_SUCCESS = (0, 255, 0),
      LEDS_COLOUR_FAILED = (255, 0, 0)\<rparr>"

record LedsManager =
  thread :: "RampThread option"
  leds_current_color :: colour

definition LedsManager_ramp :: "LedsManager \<Rightarrow> colour \<Rightarrow> rat \<Rightarrow> LedsManager" where
  \<comment> \<open>\<open>thread m\<close> is the previous thread as it is once stopped and joined; the new thread
      starts from its colour\<close>
  "LedsManager_ramp m target_color' duration_s' =
     (let cur = (case thread m of Some th \<Rightarrow> current_color th | None \<Rightarrow> leds_current_color m)
      in \<lparr>thread = Some \<lparr>current_color = cur, target_color = target_color',
                          duration_s = duration_s'\<rparr>,
          leds_current_color = cur\<rparr>)"

definition fill_default :: "config \<Rightarrow> LedsManager \<Rightarrow> LedsManager" where
  "fill_default cfg m = LedsManager_ramp m (LEDS_COLOUR_DEFAULT cfg) 1"

definition success_on :: "config \<Rightarrow> LedsManager \<Rightarrow> LedsManager" where
  "success_on cfg m = LedsManager_ramp m (LEDS_COLOUR_SUCCESS cfg) (6 / 10)"

definition success_off :: "config \<Rightarrow> LedsManager \<Rightarrow> LedsManager" where
  "success_off cfg m = LedsManager_ramp m (LEDS_COLOUR_DEFAULT cfg) (6 / 10)"

section \<open>TapManager\<close>

text \<open>
  What a method does to the world outside the \<open>TapManager\<close> object is recorded as the list
  of its effects, in the order of the calls: the lines logged, the calls of the
  \<open>LedsManager\<close>, the request posted, the reports to Sentry, and the calls of \<open>cancel\<close> and
  \<open>start\<close> on a \<open>Timer\<close>. The answer to the request comes from outside: a response with its
  status code and text, an exception that is an instance of
  \<open>requests.exceptions.ConnectionError\<close> (a refused connection, a \<open>ConnectTimeout\<close>), or an
  exception of another class (a \<open>ReadTimeout\<close>, a \<open>ChunkedEncodingError\<close> when the connection
  breaks while the response is read), named by the string.

  The definitions of this section are the methods as they run when the thread of the timer
  takes no step during the call; a later section interleaves \<open>read_line\<close> with that thread.
\<close>

datatype event =
    Log_tap_on "string option"
  | Log_tap_off "string option"
  | Log_text string
  | Log_post_failed string
  | Leds_success_on
  | Leds_success_off
  | Leds_failed
  | Requests_post "string option"
  | Sentry_capture_message string
  | Sentry_capture_exception string
  | Timer_cancel
  | Timer_start

datatype post_outcome =
    Response nat string
  | ConnectionError string
  | Other_exception string

datatype exn = Uncaught string | UnicodeDecodeError

datatype timer = Timer (is_alive: bool)

text \<open>
  Of the fields of \<open>TapManager\<close>, \<open>last_id_time\<close> is written once by \<open>__init__\<close> and never
  read, and \<open>leds\<close> is the \<open>LedsManager\<close> whose calls are recorded as effects; the state
  keeps the other two. Of a timer the state keeps what \<open>is_alive()\<close> returns.
\<close>

record TapManager =
  last_id :: "string option"
  tap_off_timer :: "timer option"

definition TapManager_init :: TapManager where
  "TapManager_init = \<lparr>last_id = None, tap_off_timer = None\<rparr>"

definition send_tap :: "string option \<Rightarrow> post_outcome \<Rightarrow> event list \<times> (exn + nat)" where
  "send_tap id' outcome =
     (case outcome of
        Response status_code txt \<Rightarrow>
          (if status_code = 201 then ([Requests_post id', Log_text txt], Inr 0)
           else ([Requests_post id', Log_text txt, Sentry_capture_message txt], Inr 1))
      | ConnectionError e \<Rightarrow>
          ([Requests_post id', Log_post_failed e, Sentry_capture_exception e], Inr 1)
      | Other_exception e \<Rightarrow> ([Requests_post id'], Inl (Uncaught e)))"

definition tap_on :: "TapManager \<Rightarrow> post_outcome \<Rightarrow> TapManager \<times> event list \<times> exn option" where
  "tap_on s outcome =
     (case send_tap (last_id s) outcome of
        (evs, Inl e) \<Rightarrow> (s, [Log_tap_on (last_id s), Leds_success_on] @ evs, Some e)
      | (evs, Inr r) \<Rightarrow> (s, [Log_tap_on (last_id s), Leds_success_on] @ evs, None))"

definition tap_off :: "TapManager \<Rightarrow> TapManager \<times> event list" where
  "tap_off s = (s\<lparr>last_id := None\<rparr>, [Log_tap_off (last_id s), Leds_success_off])"

definition reset_tap_off_timer :: "TapManager \<Rightarrow> TapManager \<times> event list" where
  \<comment> \<open>\<open>_reset_tap_off_timer\<close>\<close>
  "reset_tap_off_timer s =
     (case tap_off_timer s of
        Some tm \<Rightarrow> (s\<lparr>tap_off_timer := Some (Timer True)\<rparr>, [Timer_cancel, Timer_start])
      | None \<Rightarrow> (s\<lparr>tap_off_timer := Some (Timer True)\<rparr>, [Timer_start]))"

definition timer_is_alive :: "TapManager \<Rightarrow> bool" where
  \<comment> \<open>\<open>self.tap_off_timer and self.tap_off_timer.is_alive()\<close>\<close>
  "timer_is_alive s = (case tap_off_timer s of Some tm \<Rightarrow> is_alive tm | None \<Rightarrow> False)"

definition read_line :: "TapManager \<Rightarrow> string \<Rightarrow> post_outcome \<Rightarrow> TapManager \<times> event list \<times> exn option" where
  "read_line s line outcome =
     (let id' = TapManager_byte_string_to_lens_id line
      in if Some id' \<noteq> last_id s then
           (let (s1, evs1) =
                  (if timer_is_alive s
                   then (case tap_off (s\<lparr>tap_off_timer := Some (Timer False)\<rparr>) of
                           (s', evs) \<Rightarrow> (s', Timer_cancel # evs))
                   else (s, []));
                s2 = s1\<lparr>last_id := Some id'\<rparr>
            in case tap_on s2 outcome of
                 (s3, evs2, Some e) \<Rightarrow> (s3, evs1 @ evs2, Some e)
               | (s3, evs2, None) \<Rightarrow>
                   (case reset_tap_off_timer s3 of
                      (s4, evs3) \<Rightarrow> (s4, evs1 @ evs2 @ evs3, None)))
         else (case reset_tap_off_timer s of (s4, evs3) \<Rightarrow> (s4, evs3, None)))"

section \<open>The main loop\<close>

text \<open>
  What \<open>popen.stdout.readline().decode("utf-8")\<close> gives comes from outside: the line as a
  string, or \<open>UnicodeDecodeError\<close> when the bytes read are not UTF-8.
\<close>

datatype stdout_read = Decoded string | Undecodable

definition main_iteration ::
  "TapManager \<Rightarrow> stdout_read \<Rightarrow> post_outcome \<Rightarrow> TapManager \<times> event list \<times> exn option" where
  \<comment> \<open>the body of the \<open>while True\<close> of \<open>main\<close>\<close>
  "main_iteration s rd outcome =
     (case rd of
        Undecodable \<Rightarrow> (s, [], Some UnicodeDecodeError)
      | Decoded line \<Rightarrow>
          (if re_match BYTE_STRING_RE line then read_line s line outcome else (s, [], None)))"

datatype input = Stdout_line stdout_read post_outcome

fun main_loop :: "TapManager \<Rightarrow> input list \<Rightarrow> TapManager \<times> event list \<times> exn option" where
  \<comment> \<open>the loop of the main thread over the lines read so far; nothing catches an exception
      that leaves the body, so it ends the loop\<close>
  "main_loop s [] = (s, [], None)"
| "main_loop s (Stdout_line rd outcome # ins) =
     (case main_iteration s rd outcome of
        (s', evs, Some e) \<Rightarrow> (s', evs, Some e)
      | (s', evs, None) \<Rightarrow> (case main_loop s' ins of (s'', evs', x) \<Rightarrow> (s'', evs @ evs', x)))"




section \<open>A call of read_line beside the thread of the timer\<close>










section \<open>Tag lines as the specification describes them\<close>

text \<open>
  The specification speaks of lines matching a colon-delimited hex-byte pattern. The
  definitions of this section follow its words, not the code: a hex byte is two hexadecimal
  digits, and a tag line is a sequence of hex bytes separated by colons, followed by
  nothing but the whitespace that ends the line.
\<close>

definition is_hex_digit :: "char \<Rightarrow> bool" where
  "is_hex_digit c = list_ex (in_range c) [(CHR ''0'', CHR ''9''), (CHR ''a'', CHR ''f''), (CHR ''A'', CHR ''F'')]"

definition hex_byte :: "string \<Rightarrow> bool" where
  "hex_byte g = (length g = 2 \<and> list_all is_hex_digit g)"

definition py_rstrip :: "string \<Rightarrow> string" where
  "py_rstrip s = rev (dropWhile py_isspace (rev s))"

definition spec_colon_delimited_hex_line :: "string \<Rightarrow> bool" where
  \<comment> \<open>the pattern in the words of the specification\<close>
  "spec_colon_delimited_hex_line line = list_all hex_byte (py_split CHR '':'' (py_rstrip line))"

fun colon_join :: "string list \<Rightarrow> string" where
  "colon_join [] = []"
| "colon_join [g] = g"
| "colon_join (g # gs) = g @ CHR '':'' # colon_join gs"

text \<open>What the pattern of the main loop amounts to, and the expressions that match nothing.\<close>

fun starts_with_hex_byte :: "string \<Rightarrow> bool" where
  "starts_with_hex_byte (a # b # rest) = (is_hex_digit a \<and> is_hex_digit b)"
| "starts_with_hex_byte _ = False"

fun void :: "regex \<Rightarrow> bool" where
  "void Never = True"
| "void (Alt r s) = (void r \<and> void s)"
| "void (Seq r s) = (void r \<or> void s)"
| "void _ = False"


section \<open>Properties of the tap state machine\<close>





text \<open>
  C2. When the identifier of the line equals \<open>last_id\<close>, \<open>read_line\<close> changes nothing but
  the timer: the state is the old one with a new live timer, and the only effects are the
  cancel of the old timer, when there is one, and the start of the new one. No tap-on, no
  tap-off, no call of the LEDs and no request.
\<close>

theorem read_line_same_id:
  assumes "last_id s = Some (TapManager_byte_string_to_lens_id line)"
  shows "read_line s line outcome =
           (s\<lparr>tap_off_timer := Some (Timer True)\<rparr>,
            (if tap_off_timer s = None then [Timer_start] else [Timer_cancel, Timer_start]),
            None)"
  using assms
  by (auto simp add: read_line_def reset_tap_off_timer_def Let_def split: option.splits)

theorem read_line_same_id_witness:
  "last_id \<lparr>last_id = Some ''bb'', tap_off_timer = Some (Timer True)\<rparr> =
     Some (TapManager_byte_string_to_lens_id ''04:BB'')
   \<and> read_line \<lparr>last_id = Some ''bb'', tap_off_timer = Some (Timer True)\<rparr> ''04:BB''
        (Response 500 ''no'') =
      (\<lparr>last_id = Some ''bb'', tap_off_timer = Some (Timer True)\<rparr>,
       [Timer_cancel, Timer_start], None)"
proof -
  have h: "last_id \<lparr>last_id = Some ''bb'', tap_off_timer = Some (Timer True)\<rparr> =
     Some (TapManager_byte_string_to_lens_id ''04:BB'')"
    by code_simp
  from read_line_same_id [OF h, of "Response 500 ''no''"] h
  show ?thesis by simp
qed

text \<open>
  C3, as stated, fails: when the connection breaks while the response is read, \<open>requests\<close>
  raises \<open>ChunkedEncodingError\<close>, which is no \<open>ConnectionError\<close>. \<open>send_tap\<close> does not catch
  it: nothing is logged or reported, the exception leaves \<open>send_tap\<close>, \<open>tap_on\<close> and
  \<open>read_line\<close>, and the main loop ends without reading the next line.
\<close>

theorem send_tap_uncaught_counterexample:
  "send_tap (Some ''aa'') (Other_exception ''ChunkedEncodingError'') =
     ([Requests_post (Some ''aa'')], Inl (Uncaught ''ChunkedEncodingError''))
   \<and> main_loop TapManager_init
        [Stdout_line (Decoded ''04:AA'') (Other_exception ''ChunkedEncodingError''),
         Stdout_line (Decoded ''04:BB'') (Response 201 ''ok'')] =
      (\<lparr>last_id = Some ''aa'', tap_off_timer = None\<rparr>,
       [Log_tap_on (Some ''aa''), Leds_success_on, Requests_post (Some ''aa'')],
       Some (Uncaught ''ChunkedEncodingError''))"
  by code_simp

text \<open>
  C3, amended. When the request raises an instance of \<open>requests.exceptions.ConnectionError\<close>
  (a refused connection, a connect timeout), \<open>send_tap\<close> logs the failure, hands the
  exception to Sentry and returns 1; no exception leaves \<open>tap_on\<close>, \<open>read_line\<close> or the
  body of the main loop, and the loop goes on with the next input.
\<close>

theorem send_tap_connection_error:
  "send_tap i (ConnectionError e) =
     ([Requests_post i, Log_post_failed e, Sentry_capture_exception e], Inr 1)
   \<and> snd (snd (tap_on s (ConnectionError e))) = None
   \<and> snd (snd (read_line s line (ConnectionError e))) = None
   \<and> snd (snd (main_iteration s (Decoded line) (ConnectionError e))) = None
   \<and> main_loop s (Stdout_line (Decoded line) (ConnectionError e) # ins) =
       (case main_iteration s (Decoded line) (ConnectionError e) of
          (s', evs, x) \<Rightarrow> (case main_loop s' ins of (s'', evs', x') \<Rightarrow> (s'', evs @ evs', x')))"
proof -
  have a: "send_tap i (ConnectionError e) =
     ([Requests_post i, Log_post_failed e, Sentry_capture_exception e], Inr 1)"
    by (simp add: send_tap_def)
  have b: "snd (snd (tap_on s (ConnectionError e))) = None"
    by (simp add: tap_on_def send_tap_def)
  have c: "snd (snd (read_line s line (ConnectionError e))) = None"
    by (simp add: read_line_def tap_on_def send_tap_def reset_tap_off_timer_def Let_def
        split: prod.splits option.splits)
  have d: "snd (snd (main_iteration s (Decoded line) (ConnectionError e))) = None"
    using c by (simp add: main_iteration_def)
  have e: "main_loop s (Stdout_line (Decoded line) (ConnectionError e) # ins) =
       (case main_iteration s (Decoded line) (ConnectionError e) of
          (s', evs, x) \<Rightarrow> (case main_loop s' ins of (s'', evs', x') \<Rightarrow> (s'', evs @ evs', x')))"
    using d by (cases "main_iteration s (Decoded line) (ConnectionError e)") auto
  from a b c d e show ?thesis by blast
qed



text \<open>
  C10. The function \<open>byte_string_to_lens_id\<close> of the module and the method of
  \<open>TapManager\<close> return the same string on every input.
\<close>

theorem normalizers_agree:
  "byte_string_to_lens_id byte_string = TapManager_byte_string_to_lens_id byte_string"
  by (simp add: byte_string_to_lens_id_def TapManager_byte_string_to_lens_id_def)

section \<open>Properties of the ramp\<close>

lemma ease_no_error: "d \<noteq> 0 \<Longrightarrow> \<exists>v. ease rnd t b c d = Inr v"
  by (simp add: ease_def Let_def)

lemma ramp_channels_no_error:
  assumes "duration_s th \<noteq> 0"
  shows "\<exists>th'. ramp_channels rnd is th start_color diff t = (th', None)
           \<and> target_color th' = target_color th \<and> duration_s th' = duration_s th"
  using assms
proof (induction "is" arbitrary: th)
  case Nil
  then show ?case by simp
next
  case (Cons i "is")
  from ease_no_error [OF Cons.prems]
  obtain v where v: "ease rnd t (chan i start_color) (chan i diff) (duration_s th) = Inr v"
    by blast
  let ?th = "th\<lparr>current_color := set_chan i (py_int v) (current_color th)\<rparr>"
  have step: "ramp_channels rnd (i # is) th start_color diff t =
      ramp_channels rnd is ?th start_color diff t"
    using v by simp
  have "duration_s ?th \<noteq> 0"
    using Cons.prems by simp
  from Cons.IH [OF this] step show ?case
    by simp
qed

lemma run_loop_completes:
  assumes "\<forall>(t', stopped) \<in> set pre. \<not> stopped \<and> t' < duration_s th"
    and "duration_s th \<noteq> 0 \<or> pre = []"
    and "duration_s th \<le> t"
  shows "\<exists>th' ws. run_loop rnd th start_color diff (pre @ (t, False) # rest) =
            (th', ws @ [target_color th], Completed) \<and> length ws = length pre"
  using assms
proof (induction pre arbitrary: th)
  case Nil
  then show ?case by simp
next
  case (Cons p pre)
  obtain t' st where p: "p = (t', st)" by (cases p)
  from Cons.prems p have ns: "\<not> st" and lt: "t' < duration_s th" and nz: "duration_s th \<noteq> 0"
    by auto
  from ramp_channels_no_error [OF nz, of rnd "[0, 1, 2]" start_color diff t']
  obtain th1 where rc: "ramp_channels rnd [0, 1, 2] th start_color diff t' = (th1, None)"
    and tg: "target_color th1 = target_color th" and du: "duration_s th1 = duration_s th"
    by blast
  from Cons.prems p du have "\<forall>(t', stopped) \<in> set pre. \<not> stopped \<and> t' < duration_s th1"
    and "duration_s th1 \<noteq> 0 \<or> pre = []" and "duration_s th1 \<le> t"
    using nz by auto
  from Cons.IH [OF this]
  obtain th' ws where rl: "run_loop rnd th1 start_color diff (pre @ (t, False) # rest) =
       (th', ws @ [target_color th1], Completed)" and len: "length ws = length pre"
    by blast
  have "run_loop rnd th start_color diff ((p # pre) @ (t, False) # rest) =
      (th', (current_color th1 # ws) @ [target_color th], Completed)"
    using p ns lt rc rl tg by simp
  with len show ?case
    by (metis length_Cons)
qed

text \<open>A run that ends as completed has written the target colour last.\<close>

lemma ramp_channels_keeps:
  "ramp_channels rnd is th start_color diff t = (th', x) \<Longrightarrow>
     target_color th' = target_color th \<and> duration_s th' = duration_s th"
proof (induction "is" arbitrary: th)
  case Nil
  then show ?case by simp
next
  case (Cons i "is")
  show ?case
  proof (cases "ease rnd t (chan i start_color) (chan i diff) (duration_s th)")
    case (Inl e)
    with Cons.prems show ?thesis by simp
  next
    case (Inr v)
    let ?th = "th\<lparr>current_color := set_chan i (py_int v) (current_color th)\<rparr>"
    from Cons.prems Inr have "ramp_channels rnd is ?th start_color diff t = (th', x)" by simp
    from Cons.IH [OF this] show ?thesis by simp
  qed
qed

lemma run_loop_completed_last_write:
  "run_loop rnd th start_color diff ticks = (th', ws, Completed) \<Longrightarrow>
     ws \<noteq> [] \<and> last ws = target_color th"
proof (induction ticks arbitrary: th ws)
  case Nil
  then show ?case by simp
next
  case (Cons p ticks)
  obtain t st where p: "p = (t, st)" by (cases p)
  show ?case
  proof (cases "st \<or> duration_s th \<le> t")
    case True
    with Cons.prems p show ?thesis by (auto split: if_splits)
  next
    case False
    obtain th1 x where rc: "ramp_channels rnd [0, 1, 2] th start_color diff t = (th1, x)"
      by (cases "ramp_channels rnd [0, 1, 2] th start_color diff t")
    from ramp_channels_keeps [OF rc] have tg: "target_color th1 = target_color th" by simp
    show ?thesis
    proof (cases x)
      case (Some e)
      with Cons.prems p False rc show ?thesis by simp
    next
      case None
      obtain th2 ws2 r2 where rl: "run_loop rnd th1 start_color diff ticks = (th2, ws2, r2)"
        by (cases "run_loop rnd th1 start_color diff ticks")
      from Cons.prems p False rc None rl
      have "ws = current_color th1 # ws2" and "r2 = Completed" and "th' = th2" by simp_all
      with Cons.IH [of th1 ws2] rl tg show ?thesis by simp
    qed
  qed
qed

text \<open>
  C7, as stated, fails: \<open>time()\<close> is the wall clock, and when it is set back between the
  start of the thread and its first iteration the elapsed time is negative. For a duration
  of 0 the test \<open>t >= self.duration_s\<close> then fails, \<open>ease\<close> is called and its division
  raises \<open>ZeroDivisionError\<close>: nothing is written to the LEDs.
\<close>

theorem ramp_duration_zero_clock_set_back_counterexample:
  "thread (LedsManager_ramp \<lparr>thread = None, leds_current_color = (0, 0, 0)\<rparr> (255, 0, 0) 0) =
     Some \<lparr>current_color = (0, 0, 0), target_color = (255, 0, 0), duration_s = 0\<rparr>
   \<and> RampThread_run exact
        \<lparr>current_color = (0, 0, 0), target_color = (255, 0, 0), duration_s = 0\<rparr>
        [(- 1 / 2, False)] =
      (\<lparr>current_color = (0, 0, 0), target_color = (255, 0, 0), duration_s = 0\<rparr>,
       [], Raised ZeroDivisionError)"
  by (simp add: LedsManager_ramp_def RampThread_run_def ease_def Let_def)

text \<open>
  C7, amended. The thread that \<open>ramp\<close> starts for a duration of 0, when it is not stopped
  before its first test and the elapsed time it reads is not negative, writes the target
  colour once and ends: nothing else is written, no error is raised and \<open>ease\<close>, whose
  division would raise for this duration, is not called.
\<close>

theorem ramp_duration_zero:
  assumes "thread (LedsManager_ramp m target 0) = Some th" and "0 \<le> t"
  shows "RampThread_run rnd th ((t, False) # ticks) = (th, [target], Completed)
    \<and> ease rnd t' b c 0 = Inl ZeroDivisionError"
  using assms
  by (auto simp add: LedsManager_ramp_def RampThread_run_def Let_def ease_def)

theorem ramp_duration_zero_witness:
  "thread (LedsManager_ramp \<lparr>thread = None, leds_current_color = (0, 0, 0)\<rparr> (255, 0, 0) 0) =
     Some \<lparr>current_color = (0, 0, 0), target_color = (255, 0, 0), duration_s = 0\<rparr>
   \<and> (0::rat) \<le> 0
   \<and> RampThread_run exact
        \<lparr>current_color = (0, 0, 0), target_color = (255, 0, 0), duration_s = 0\<rparr> [(0, False)] =
      (\<lparr>current_color = (0, 0, 0), target_color = (255, 0, 0), duration_s = 0\<rparr>,
       [(255, 0, 0)], Completed)"
proof -
  have h1: "thread (LedsManager_ramp \<lparr>thread = None, leds_current_color = (0, 0, 0)\<rparr> (255, 0, 0) 0) =
     Some \<lparr>current_color = (0, 0, 0), target_color = (255, 0, 0), duration_s = 0\<rparr>"
    by (simp add: LedsManager_ramp_def Let_def)
  have h2: "(0::rat) \<le> 0" by simp
  from ramp_duration_zero [OF h1 h2, of exact "[]"] h1 h2
  show ?thesis by simp
qed

text \<open>
  C8. A ramp that is not stopped and reads elapsed times below its duration, and then one
  that has reached it, ends there: it has written one interpolated colour for each earlier
  iteration, its last write is the target colour itself, and the thread is over, whatever
  would come next and however the arithmetic rounds. (When the duration is 0 there is no
  earlier iteration: an elapsed time below 0 would make \<open>ease\<close> divide by zero.)
\<close>

theorem ramp_ends_on_target:
  assumes "\<forall>(t', stopped) \<in> set pre. \<not> stopped \<and> t' < duration_s th"
    and "duration_s th \<noteq> 0 \<or> pre = []"
    and "duration_s th \<le> t"
  shows "\<exists>th' ws. RampThread_run rnd th (pre @ (t, False) # rest) =
            (th', ws @ [target_color th], Completed) \<and> length ws = length pre"
  unfolding RampThread_run_def Let_def
  by (rule run_loop_completes [OF assms])

theorem ramp_ends_on_target_witness:
  "\<exists>th' ws.
     RampThread_run exact
       \<lparr>current_color = (0, 0, 0), target_color = (0, 255, 0), duration_s = 6 / 10\<rparr>
       ([(3 / 10, False)] @ (7 / 10, False) # [(8 / 10, False)]) =
     (th', ws @ [(0, 255, 0)], Completed) \<and> length ws = 1"
proof -
  let ?th = "\<lparr>current_color = (0, 0, 0), target_color = (0, 255, 0), duration_s = 6 / 10\<rparr>"
  have h1: "\<forall>(t', stopped) \<in> set [(3 / 10, False)]. \<not> stopped \<and> t' < duration_s ?th"
    by simp
  have h2: "duration_s ?th \<noteq> 0 \<or> [(3 / 10 :: rat, False)] = []"
    by simp
  have h3: "duration_s ?th \<le> 7 / 10"
    by simp
  from ramp_ends_on_target [OF h1 h2 h3, of exact "[(8 / 10, False)]"]
  show ?thesis by simp
qed

section \<open>Properties of a call beside the thread of the timer\<close>











section \<open>Properties of the pattern and of the main loop\<close>

lemma void_not_nullable: "void r \<Longrightarrow> \<not> nullable r"
  by (induction r) auto

lemma void_after: "void r \<Longrightarrow> void (after c r)"
  by (induction r) (auto simp add: void_not_nullable)

lemma void_no_match: "void r \<Longrightarrow> \<not> re_match r s"
proof (induction s arbitrary: r)
  case Nil
  then show ?case by (simp add: void_not_nullable)
next
  case (Cons c s)
  from Cons.prems have "void (after c r)" by (rule void_after)
  with Cons.IH Cons.prems show ?case by (simp add: void_not_nullable)
qed

lemma re_match_BYTE_STRING_RE: "re_match BYTE_STRING_RE line = starts_with_hex_byte line"
proof (cases line)
  case Nil
  then show ?thesis
    by (simp add: BYTE_STRING_RE_def Plus_def Twice_def Opt_def hex_digit_class_def)
next
  case (Cons a l1)
  note l = Cons
  show ?thesis
  proof (cases l1)
    case Nil
    with l show ?thesis
      by (simp add: BYTE_STRING_RE_def Plus_def Twice_def Opt_def hex_digit_class_def)
  next
    case (Cons b rest)
    let ?r = "after b (after a BYTE_STRING_RE)"
    have m: "re_match BYTE_STRING_RE line = re_match ?r rest"
      using l Cons
      by (simp add: BYTE_STRING_RE_def Plus_def Twice_def Opt_def hex_digit_class_def)
    show ?thesis
    proof (cases "is_hex_digit a \<and> is_hex_digit b")
      case True
      then have "nullable ?r"
        by (simp add: BYTE_STRING_RE_def Plus_def Twice_def Opt_def hex_digit_class_def
            is_hex_digit_def)
      then have "re_match ?r rest" by (cases rest) simp_all
      with m True l Cons show ?thesis by simp
    next
      case False
      then have "void ?r"
        by (auto simp add: BYTE_STRING_RE_def Plus_def Twice_def Opt_def hex_digit_class_def
            is_hex_digit_def)
      then have "\<not> re_match ?r rest" by (rule void_no_match)
      with m False l Cons show ?thesis by simp
    qed
  qed
qed

lemma py_split_not_Nil: "py_split sep s \<noteq> []"
  by (induction s) (auto split: list.splits)

lemma py_split_hd_prefix: "\<exists>rest. s = hd (py_split sep s) @ rest"
  by (induction s) (auto split: list.splits)

lemma py_rstrip_prefix: "\<exists>ws. line = py_rstrip line @ ws"
proof -
  have "rev line = takeWhile py_isspace (rev line) @ dropWhile py_isspace (rev line)"
    by simp
  then have "line = rev (dropWhile py_isspace (rev line)) @ rev (takeWhile py_isspace (rev line))"
    by (metis rev_append rev_rev_ident)
  then show ?thesis by (auto simp add: py_rstrip_def)
qed

lemma spec_line_starts_with_hex_byte:
  assumes "spec_colon_delimited_hex_line line"
  shows "starts_with_hex_byte line"
proof -
  let ?gs = "py_split CHR '':'' (py_rstrip line)"
  have ne: "?gs \<noteq> []" by (rule py_split_not_Nil)
  with assms have hb: "hex_byte (hd ?gs)"
    by (cases ?gs) (simp_all add: spec_colon_delimited_hex_line_def)
  then obtain a b where g: "hd ?gs = [a, b]" and ha: "is_hex_digit a" and hb': "is_hex_digit b"
    by (cases "hd ?gs"; cases "tl (hd ?gs)") (auto simp add: hex_byte_def)
  from py_split_hd_prefix [of "py_rstrip line" "CHR '':''"] g
  obtain rest where r: "py_rstrip line = [a, b] @ rest" by auto
  from py_rstrip_prefix [of line] obtain ws where "line = py_rstrip line @ ws" by blast
  with r have "line = a # b # (rest @ ws)" by simp
  with ha hb' show ?thesis by simp
qed

text \<open>
  An exception of \<open>requests.post\<close> that is not a \<open>ConnectionError\<close> is not caught: it
  leaves \<open>send_tap\<close>, \<open>tap_on\<close> and \<open>read_line\<close> and ends the main loop.
\<close>

lemma other_exception_ends_the_loop:
  assumes "starts_with_hex_byte line"
    and "Some (TapManager_byte_string_to_lens_id line) \<noteq> last_id s"
  shows "snd (snd (main_loop s (Stdout_line (Decoded line) (Other_exception e) # ins))) =
    Some (Uncaught e)"
proof -
  have "snd (snd (read_line s line (Other_exception e))) = Some (Uncaught e)"
    using assms(2)
    by (simp add: read_line_def tap_on_def tap_off_def send_tap_def Let_def
        split: prod.splits)
  with assms(1)
  have "snd (snd (main_iteration s (Decoded line) (Other_exception e))) = Some (Uncaught e)"
    by (simp add: main_iteration_def re_match_BYTE_STRING_RE)
  then show ?thesis
    by (cases "main_iteration s (Decoded line) (Other_exception e)") auto
qed

text \<open>
  What the test of the main loop lets through: a decoded line goes to \<open>read_line\<close>
  exactly when it begins with two hexadecimal digits, whatever follows, and every
  colon-delimited hex-byte line does; a line that cannot be decoded ends the loop.
\<close>

lemma main_iteration_gate:
  "re_match BYTE_STRING_RE line = starts_with_hex_byte line
   \<and> (starts_with_hex_byte line \<longrightarrow>
        main_iteration s (Decoded line) outcome = read_line s line outcome)
   \<and> (\<not> starts_with_hex_byte line \<longrightarrow> main_iteration s (Decoded line) outcome = (s, [], None))
   \<and> (spec_colon_delimited_hex_line line \<longrightarrow> starts_with_hex_byte line)
   \<and> main_iteration s Undecodable outcome = (s, [], Some UnicodeDecodeError)"
  using spec_line_starts_with_hex_byte [of line]
  by (auto simp add: main_iteration_def re_match_BYTE_STRING_RE)

text \<open>
  C5. The claim is that only colon-delimited hex-byte lines reach \<open>read_line\<close> and that
  every other line is dropped without a change of state and without an error. The main
  loop does otherwise: the line \<open>be careful\<close> is no sequence of hex bytes, but it begins with
  the hexadecimal digits \<open>be\<close>, the pattern, which is not anchored at the end of the line,
  matches, and \<open>read_line\<close> opens a session for the empty identifier and posts a request
  for it. A line that is not UTF-8 is not dropped either: decoding it raises
  \<open>UnicodeDecodeError\<close>, which ends the loop.
\<close>

theorem main_iteration_passes_be_careful:
  "\<not> spec_colon_delimited_hex_line ''be careful''
   \<and> re_match BYTE_STRING_RE ''be careful''
   \<and> main_iteration TapManager_init (Decoded ''be careful'') (Response 201 ''ok'') =
       (\<lparr>last_id = Some [], tap_off_timer = Some (Timer True)\<rparr>,
        [Log_tap_on (Some []), Leds_success_on, Requests_post (Some []), Log_text ''ok'',
         Timer_start],
        None)
   \<and> main_loop TapManager_init
        [Stdout_line Undecodable (Response 201 ''ok''),
         Stdout_line (Decoded ''04:AA'') (Response 201 ''ok'')] =
      (TapManager_init, [], Some UnicodeDecodeError)"
  by code_simp

section \<open>Properties of the normalizer\<close>

lemma concat_py_split: "concat (py_split sep s) = filter (\<lambda>c. c \<noteq> sep) s"
  by (induction s) (auto split: list.splits)

lemma concat_drop_py_split:
  "concat (drop 1 (py_split sep s)) =
     filter (\<lambda>c. c \<noteq> sep) (drop 1 (dropWhile (\<lambda>c. c \<noteq> sep) s))"
proof (induction s)
  case Nil
  then show ?case by simp
next
  case (Cons c cs)
  show ?case
  proof (cases "c = sep")
    case True
    then show ?thesis by (simp add: concat_py_split)
  next
    case False
    with Cons show ?thesis by (auto split: list.splits)
  qed
qed

text \<open>
  C4, as stated, fails: \<open>xx:04:A5:2C:F2:2A:5E:80\<close> matches neither the pattern of the main
  loop nor the pattern of the specification, and the normalizer returns for it, without
  failing, the identifier that it returns for the tag line \<open>04:04:A5:2C:F2:2A:5E:80\<close>.
\<close>

theorem normalize_no_rejection_counterexample:
  "\<not> re_match BYTE_STRING_RE ''xx:04:A5:2C:F2:2A:5E:80''
   \<and> \<not> spec_colon_delimited_hex_line ''xx:04:A5:2C:F2:2A:5E:80''
   \<and> TapManager_byte_string_to_lens_id ''xx:04:A5:2C:F2:2A:5E:80'' = ''04a52cf22a5e80''
   \<and> TapManager_byte_string_to_lens_id ''xx:04:A5:2C:F2:2A:5E:80'' =
       TapManager_byte_string_to_lens_id ''04:04:A5:2C:F2:2A:5E:80''"
  by code_simp

text \<open>
  C4, amended. The normalizer checks nothing and always returns a string: for every raw
  input, matching or not, the result is what follows the first colon of the stripped input,
  with the other colons removed, in lower case (the empty string when there is no colon).
\<close>

theorem normalize_total:
  "TapManager_byte_string_to_lens_id raw =
     py_lower (filter (\<lambda>c. c \<noteq> CHR '':'')
       (drop 1 (dropWhile (\<lambda>c. c \<noteq> CHR '':'') (py_strip raw))))"
  by (simp only: TapManager_byte_string_to_lens_id_def py_join_def concat_drop_py_split)

lemma hex_digit_not_space: "is_hex_digit c \<Longrightarrow> \<not> py_isspace c"
  by (auto simp add: is_hex_digit_def py_isspace_def in_range_def Let_def)

lemma hex_digit_not_colon: "is_hex_digit c \<Longrightarrow> c \<noteq> CHR '':''"
  by (auto simp add: is_hex_digit_def in_range_def)

lemma py_split_no_sep: "sep \<notin> set g \<Longrightarrow> py_split sep g = [g]"
  by (induction g) auto

lemma py_split_append_sep:
  "sep \<notin> set g \<Longrightarrow> py_split sep (g @ sep # rest) = g # py_split sep rest"
  by (induction g) auto

lemma py_split_colon_join:
  assumes "\<forall>g \<in> set (g0 # gs). CHR '':'' \<notin> set g"
  shows "py_split CHR '':'' (colon_join (g0 # gs)) = g0 # gs"
  using assms
proof (induction gs arbitrary: g0)
  case Nil
  then show ?case by (simp add: py_split_no_sep)
next
  case (Cons g gs)
  then show ?case by (simp add: py_split_append_sep)
qed

lemma py_strip_core:
  assumes "list_all py_isspace ws1" and "list_all py_isspace ws2"
    and "core \<noteq> []" and "\<not> py_isspace (hd core)" and "\<not> py_isspace (last core)"
  shows "py_strip (ws1 @ core @ ws2) = core"
proof -
  from assms(3) obtain c cs where c: "core = c # cs" by (cases core) auto
  have a: "dropWhile py_isspace (ws1 @ core @ ws2) = core @ ws2"
    using assms(1,4) c by (simp add: dropWhile_append3 list_all_iff)
  have "rev core \<noteq> []" and "hd (rev core) = last core"
    using assms(3) by (simp_all add: hd_rev)
  then obtain d ds where d: "rev core = d # ds" and dl: "d = last core"
    by (cases "rev core") auto
  have "dropWhile py_isspace (rev ws2 @ d # ds) = d # ds"
    using assms(2,5) dl by (simp add: dropWhile_append3 list_all_iff)
  then have b: "dropWhile py_isspace (rev ws2 @ rev core) = rev core"
    by (simp only: d)
  show ?thesis
    unfolding py_strip_def a by (simp add: b)
qed

lemma colon_join_hd:
  "g0 \<noteq> [] \<Longrightarrow> colon_join (g0 # gs) \<noteq> [] \<and> hd (colon_join (g0 # gs)) = hd g0"
  by (cases gs) auto

lemma colon_join_last:
  "\<forall>g \<in> set (g0 # gs). g \<noteq> [] \<Longrightarrow> last (colon_join (g0 # gs)) = last (last (g0 # gs))"
proof (induction gs arbitrary: g0)
  case Nil
  then show ?case by simp
next
  case (Cons g gs)
  then have "g \<noteq> []" and "\<forall>h \<in> set (g # gs). h \<noteq> []" by simp_all
  from colon_join_hd [OF this(1), of gs] Cons.IH [OF this(2)]
  show ?case by simp
qed

lemma hex_byte_facts:
  assumes "hex_byte g"
  shows "g \<noteq> []" and "CHR '':'' \<notin> set g" and "\<not> py_isspace (hd g)" and "\<not> py_isspace (last g)"
proof -
  from assms obtain a b where g: "g = [a, b]" and a: "is_hex_digit a" and b: "is_hex_digit b"
    by (cases g; cases "tl g") (auto simp add: hex_byte_def)
  show "g \<noteq> []" using g by simp
  show "CHR '':'' \<notin> set g" using g a b hex_digit_not_colon by auto
  show "\<not> py_isspace (hd g)" using g a by (simp add: hex_digit_not_space)
  show "\<not> py_isspace (last g)" using g b by (simp add: hex_digit_not_space)
qed

lemma hex_digit_chars:
  assumes "is_hex_digit c"
  shows "c \<in> set ''0123456789abcdefABCDEF''"
proof -
  let ?n = "of_char c :: nat"
  from assms have "(48 \<le> ?n \<and> ?n \<le> 57) \<or> (97 \<le> ?n \<and> ?n \<le> 102) \<or> (65 \<le> ?n \<and> ?n \<le> 70)"
    by (simp add: is_hex_digit_def in_range_def)
  then have "?n \<in> {48, 49, 50, 51, 52, 53, 54, 55, 56, 57, 97, 98, 99, 100, 101, 102,
      65, 66, 67, 68, 69, 70}"
    by (simp only: insert_iff empty_iff) presburger
  then have "?n \<in> of_char ` set ''0123456789abcdefABCDEF''"
    by simp
  then obtain d where d: "d \<in> set ''0123456789abcdefABCDEF''" and e: "?n = of_char d"
    by blast
  from e have "c = d" by simp
  with d show ?thesis by simp
qed

lemma py_lower_hex_digit:
  assumes "is_hex_digit c"
  shows "py_lower_char c \<in> set ''0123456789abcdef''"
proof -
  have "\<forall>d \<in> set ''0123456789abcdefABCDEF''. py_lower_char d \<in> set ''0123456789abcdef''"
    by code_simp
  with hex_digit_chars [OF assms] show ?thesis by blast
qed

text \<open>
  C6. On a tag line, a colon-joined sequence of hex bytes with whitespace around it, the
  normalizer returns the bytes after the first one, concatenated and in lower case: the
  whitespace, the first byte and the colons are gone, and what is left is two lower-case
  hexadecimal digits for each remaining byte. For \<open>04:04:A5:2C:F2:2A:5E:80\<close> the result is
  \<open>04a52cf22a5e80\<close>. The normalizer is a function of its argument alone.
\<close>

theorem normalize_valid_line:
  assumes "list_all py_isspace ws1" and "list_all py_isspace ws2"
    and "list_all hex_byte (g0 # gs)"
  shows "TapManager_byte_string_to_lens_id (ws1 @ colon_join (g0 # gs) @ ws2) = py_lower (concat gs)
    \<and> set (py_lower (concat gs)) \<subseteq> set ''0123456789abcdef''
    \<and> length (py_lower (concat gs)) = 2 * length gs
    \<and> TapManager_byte_string_to_lens_id ''04:04:A5:2C:F2:2A:5E:80'' = ''04a52cf22a5e80''"
proof -
  from assms(3) have hb: "\<forall>g \<in> set (g0 # gs). hex_byte g"
    by (simp add: list_all_iff)
  let ?core = "colon_join (g0 # gs)"
  have ne: "\<forall>g \<in> set (g0 # gs). g \<noteq> []"
    using hb hex_byte_facts(1) by blast
  have nc: "\<forall>g \<in> set (g0 # gs). CHR '':'' \<notin> set g"
    using hb hex_byte_facts(2) by blast
  have c1: "?core \<noteq> []" and c2: "hd ?core = hd g0"
    using colon_join_hd [of g0 gs] ne by simp_all
  have c3: "last ?core = last (last (g0 # gs))"
    by (rule colon_join_last [OF ne])
  have "hex_byte g0" using hb by simp
  then have s1: "\<not> py_isspace (hd ?core)"
    using c2 hex_byte_facts(3) by simp
  have "hex_byte (last (g0 # gs))"
    using hb last_in_set [of "g0 # gs"] by blast
  then have s2: "\<not> py_isspace (last ?core)"
    using c3 hex_byte_facts(4) by simp
  have st: "py_strip (ws1 @ ?core @ ws2) = ?core"
    by (rule py_strip_core [OF assms(1) assms(2) c1 s1 s2])
  have a: "TapManager_byte_string_to_lens_id (ws1 @ ?core @ ws2) = py_lower (concat gs)"
    unfolding TapManager_byte_string_to_lens_id_def st py_split_colon_join [OF nc] py_join_def
    by simp
  have hd: "\<forall>c \<in> set (concat gs). is_hex_digit c"
    using hb by (auto simp add: hex_byte_def list_all_iff)
  have b: "set (py_lower (concat gs)) \<subseteq> set ''0123456789abcdef''"
    unfolding py_lower_def using hd py_lower_hex_digit by auto
  have "\<forall>g \<in> set gs. length g = 2"
    using hb by (simp add: hex_byte_def)
  then have "length (concat gs) = 2 * length gs"
    by (induction gs) simp_all
  then have c: "length (py_lower (concat gs)) = 2 * length gs"
    by (simp add: py_lower_def)
  have d: "TapManager_byte_string_to_lens_id ''04:04:A5:2C:F2:2A:5E:80'' = ''04a52cf22a5e80''"
    by code_simp
  from a b c d show ?thesis by blast
qed

theorem normalize_valid_line_witness:
  "TapManager_byte_string_to_lens_id
     ('' '' @ colon_join [''04'', ''A5'', ''2c''] @ [CHR 0x0D, CHR 0x0A]) = ''a52c''"
proof -
  have h1: "list_all py_isspace '' ''" by code_simp
  have h2: "list_all py_isspace [CHR 0x0D, CHR 0x0A]" by code_simp
  have h3: "list_all hex_byte [''04'', ''A5'', ''2c'']" by code_simp
  have v: "py_lower (concat [''A5'', ''2c'']) = ''a52c''" by code_simp
  from normalize_valid_line [OF h1 h2 h3] v
  show ?thesis by simp
qed

end
